theory Spec2Isabelle
  imports Main "HOL-Library.Multiset"
begin

section \<open>LamportClock\<close>

text \<open>
  The class \<open>LamportClock\<close> of \<open>node.py\<close> holds one Python integer, \<open>time\<close>, starting
  at 0. Each method runs under the clock's lock, so it is one atomic step: it takes the
  clock and returns its result together with the clock afterwards. Python integers are
  unbounded, so \<open>time\<close> is an \<open>int\<close>.
\<close>

record lamport_clock =
  time :: int

definition init_clock :: lamport_clock where
  "init_clock = \<lparr>time = 0\<rparr>"

definition increment :: "lamport_clock \<Rightarrow> int \<times> lamport_clock" where
  "increment c = (let c' = c\<lparr>time := time c + 1\<rparr> in (time c', c'))"

definition update :: "lamport_clock \<Rightarrow> int \<Rightarrow> int \<times> lamport_clock" where
  "update c received_time =
     (let c' = c\<lparr>time := max (time c) received_time + 1\<rparr> in (time c', c'))"

definition get_time :: "lamport_clock \<Rightarrow> int \<times> lamport_clock" where
  "get_time c = (time c, c)"

text \<open>A sequence of calls on one clock, with the list of the values they return.\<close>

datatype clock_call = Increment | Update int

fun clock_step :: "lamport_clock \<Rightarrow> clock_call \<Rightarrow> int \<times> lamport_clock" where
  "clock_step c Increment = increment c"
| "clock_step c (Update received_time) = update c received_time"

fun run_clock :: "lamport_clock \<Rightarrow> clock_call list \<Rightarrow> int list \<times> lamport_clock" where
  "run_clock c [] = ([], c)"
| "run_clock c (call # calls) =
     (let (r, c') = clock_step c call;
          (rs, c'') = run_clock c' calls
      in (r # rs, c''))"

section \<open>KeyValueStore\<close>

text \<open>
  An entry of the store is the dictionary \<open>{'value': v, 'timestamp': ts, 'node': id}\<close>;
  the store is the dictionary \<open>self.store\<close> from keys to entries. Keys are hashable
  Python values, values and node identifiers are opaque, timestamps are integers.
\<close>

record ('v, 'n) entry =
  entry_value :: 'v
  entry_timestamp :: int
  entry_node :: 'n

type_synonym ('k, 'v, 'n) kv_store = "'k \<rightharpoonup> ('v, 'n) entry"

definition init_store :: "('k, 'v, 'n) kv_store" where
  "init_store = Map.empty"

definition put ::
  "('k, 'v, 'n) kv_store \<Rightarrow> 'k \<Rightarrow> 'v \<Rightarrow> int \<Rightarrow> 'n \<Rightarrow> bool \<times> ('k, 'v, 'n) kv_store" where
  "put kv key value timestamp node_id =
     (let installed = kv(key \<mapsto>
            \<lparr>entry_value = value, entry_timestamp = timestamp, entry_node = node_id\<rparr>)
      in case kv key of
           None \<Rightarrow> (True, installed)
         | Some existing \<Rightarrow>
             if timestamp > entry_timestamp existing then (True, installed)
             else (False, kv))"

definition get ::
  "('k, 'v, 'n) kv_store \<Rightarrow> 'k \<Rightarrow> ('v, 'n) entry option \<times> ('k, 'v, 'n) kv_store" where
  "get kv key = (kv key, kv)"

definition get_all ::
  "('k, 'v, 'n) kv_store \<Rightarrow> ('k, 'v, 'n) kv_store \<times> ('k, 'v, 'n) kv_store" where
  "get_all kv = (kv, kv)"

text \<open>A sequence of operations on one store.\<close>

datatype ('k, 'v, 'n) kv_op = Put 'k 'v int 'n | Get 'k | GetAll

fun kv_step :: "('k, 'v, 'n) kv_store \<Rightarrow> ('k, 'v, 'n) kv_op \<Rightarrow> ('k, 'v, 'n) kv_store" where
  "kv_step kv (Put key value timestamp node_id) = snd (put kv key value timestamp node_id)"
| "kv_step kv (Get key) = snd (get kv key)"
| "kv_step kv GetAll = snd (get_all kv)"

fun run_ops :: "('k, 'v, 'n) kv_store \<Rightarrow> ('k, 'v, 'n) kv_op list \<Rightarrow> ('k, 'v, 'n) kv_store" where
  "run_ops kv [] = kv"
| "run_ops kv (op # ops) = run_ops (kv_step kv op) ops"

text \<open>
  A write is the argument tuple of one \<open>put\<close> call; \<open>apply_writes\<close> calls \<open>put\<close> on each
  write of a list in turn and keeps the store.
\<close>

type_synonym ('k, 'v, 'n) kv_write = "'k \<times> 'v \<times> int \<times> 'n"

fun apply_write :: "('k, 'v, 'n) kv_store \<Rightarrow> ('k, 'v, 'n) kv_write \<Rightarrow> ('k, 'v, 'n) kv_store" where
  "apply_write kv (key, value, timestamp, node_id) = snd (put kv key value timestamp node_id)"

definition apply_writes ::
  "('k, 'v, 'n) kv_store \<Rightarrow> ('k, 'v, 'n) kv_write list \<Rightarrow> ('k, 'v, 'n) kv_store" where
  "apply_writes kv ws = foldl apply_write kv ws"

fun write_key :: "('k, 'v, 'n) kv_write \<Rightarrow> 'k" where
  "write_key (key, value, timestamp, node_id) = key"

fun write_timestamp :: "('k, 'v, 'n) kv_write \<Rightarrow> int" where
  "write_timestamp (key, value, timestamp, node_id) = timestamp"

text \<open>
  A list of writes is free of ties when no two different writes of it have the same key
  and the same timestamp.
\<close>

definition tie_free :: "('k, 'v, 'n) kv_write list \<Rightarrow> bool" where
  "tie_free ws \<longleftrightarrow>
     (\<forall>a \<in> set ws. \<forall>b \<in> set ws.
        write_key a = write_key b \<and> write_timestamp a = write_timestamp b \<longrightarrow> a = b)"

section \<open>Node\<close>

text \<open>
  A node owns one clock and one store. \<open>delay_peer\<close> is \<open>None\<close> until the command line
  sets it. The HTTP server is a plain \<open>HTTPServer\<close>, which serves one request at a time,
  so the handlers below run one after the other; each takes the node and returns its
  response with the node afterwards.
\<close>

record ('k, 'v, 'n) node =
  node_id :: 'n
  port :: int
  peers :: "string list"
  clock :: lamport_clock
  store :: "('k, 'v, 'n) kv_store"
  delay_peer :: "string option"
  delay_seconds :: int

definition init_node :: "'n \<Rightarrow> int \<Rightarrow> string list \<Rightarrow> ('k, 'v, 'n) node" where
  "init_node nid p ps =
     \<lparr>node_id = nid, port = p, peers = ps, clock = init_clock, store = init_store,
      delay_peer = None, delay_seconds = 0\<rparr>"

text \<open>
  \<open>_replicate_to_peers\<close> starts one daemon thread for each peer; the model returns the
  argument tuples \<open>(peer_url, key, value, timestamp, delay)\<close> of the threads it starts.
  An empty \<open>delay_peer\<close> string is false in the test \<open>self.delay_peer and ...\<close>.
\<close>

type_synonym ('k, 'v) thread_args = "string \<times> 'k \<times> 'v \<times> int \<times> int"

definition replicate_to_peers ::
  "('k, 'v, 'n) node \<Rightarrow> 'k \<Rightarrow> 'v \<Rightarrow> int \<Rightarrow> ('k, 'v) thread_args list" where
  "replicate_to_peers n key value timestamp =
     map (\<lambda>peer_url.
            (peer_url, key, value, timestamp,
             (case delay_peer n of
                None \<Rightarrow> 0
              | Some d \<Rightarrow> if d \<noteq> [] \<and> peer_url = d then delay_seconds n else 0)))
         (peers n)"

record 'n put_response =
  put_status :: string
  put_timestamp :: int
  put_node :: 'n

definition handle_put ::
  "('k, 'v, 'n) node \<Rightarrow> 'k \<Rightarrow> 'v \<Rightarrow>
     'n put_response \<times> ('k, 'v) thread_args list \<times> ('k, 'v, 'n) node" where
  "handle_put n key value =
     (let (timestamp, c) = increment (clock n);
          (applied, kv) = put (store n) key value timestamp (node_id n);
          n' = n\<lparr>clock := c, store := kv\<rparr>;
          threads = replicate_to_peers n' key value timestamp
      in (\<lparr>put_status = ''ok'', put_timestamp = timestamp, put_node = node_id n\<rparr>,
          threads, n'))"

datatype ('k, 'v, 'n) get_response = GetOk 'k 'v int 'n | GetNotFound 'k

definition handle_get ::
  "('k, 'v, 'n) node \<Rightarrow> 'k \<Rightarrow> ('k, 'v, 'n) get_response \<times> ('k, 'v, 'n) node" where
  "handle_get n key =
     (let (data, kv) = get (store n) key
      in case data of
           Some d \<Rightarrow> (GetOk key (entry_value d) (entry_timestamp d) (entry_node d), n\<lparr>store := kv\<rparr>)
         | None \<Rightarrow> (GetNotFound key, n\<lparr>store := kv\<rparr>))"

record replicate_response =
  rep_status :: string
  rep_applied :: bool

definition handle_replicate ::
  "('k, 'v, 'n) node \<Rightarrow> 'k \<Rightarrow> 'v \<Rightarrow> int \<Rightarrow> 'n \<Rightarrow> replicate_response \<times> ('k, 'v, 'n) node" where
  "handle_replicate n key value timestamp source_node =
     (let (local_time, c) = update (clock n) timestamp;
          (applied, kv) = put (store n) key value timestamp source_node
      in (\<lparr>rep_status = ''ok'', rep_applied = applied\<rparr>, n\<lparr>clock := c, store := kv\<rparr>))"

record ('k, 'v, 'n) status_response =
  status_node_id :: 'n
  status_lamport_time :: int
  status_store :: "('k, 'v, 'n) kv_store"
  status_peers :: "string list"

definition handle_status :: "('k, 'v, 'n) node \<Rightarrow> ('k, 'v, 'n) status_response" where
  "handle_status n =
     (let all_data = fst (get_all (store n))
      in \<lparr>status_node_id = node_id n, status_lamport_time = fst (get_time (clock n)),
          status_store = all_data, status_peers = peers n\<rparr>)"

text \<open>A sequence of write and replication requests served by one node, in order.\<close>

datatype ('k, 'v, 'n) event = HandlePut 'k 'v | HandleReplicate 'k 'v int 'n

fun node_step :: "('k, 'v, 'n) node \<Rightarrow> ('k, 'v, 'n) event \<Rightarrow> ('k, 'v, 'n) node" where
  "node_step n (HandlePut key value) = snd (snd (handle_put n key value))"
| "node_step n (HandleReplicate key value timestamp source_node) =
     snd (handle_replicate n key value timestamp source_node)"

fun run_events :: "('k, 'v, 'n) node \<Rightarrow> ('k, 'v, 'n) event list \<Rightarrow> ('k, 'v, 'n) node" where
  "run_events n [] = n"
| "run_events n (ev # evs) = run_events (node_step n ev) evs"

text \<open>
  Every stored timestamp is at most the clock's time: the property of a node that the
  handlers keep.
\<close>

definition clock_dominates :: "('k, 'v, 'n) node \<Rightarrow> bool" where
  "clock_dominates n \<longleftrightarrow>
     (\<forall>key existing. store n key = Some existing \<longrightarrow> entry_timestamp existing \<le> time (clock n))"

section \<open>Replication to one peer\<close>

text \<open>
  \<open>_replicate_to_peer\<close> sleeps and sends requests; the model returns the list of these
  actions in the order the thread performs them, and how the thread ends. The network is
  a parameter: \<open>responds attempt\<close> tells whether the body of the \<open>try\<close> of that attempt
  runs to its \<open>return\<close> (the peer answered with a success status and a JSON body); any
  exception there is a failed attempt.
\<close>

record ('k, 'v, 'n) payload =
  payload_key :: 'k
  payload_value :: 'v
  payload_timestamp :: int
  payload_source_node :: 'n

datatype ('k, 'v, 'n) action = Sleep int | Request string "('k, 'v, 'n) payload"

datatype delivery = Replicated | FailedAfter nat

fun attempt_loop ::
  "(nat \<Rightarrow> bool) \<Rightarrow> nat \<Rightarrow> string \<Rightarrow> ('k, 'v, 'n) payload \<Rightarrow> nat list \<Rightarrow>
     ('k, 'v, 'n) action list \<times> delivery" where
  "attempt_loop responds max_retries peer_url data [] = ([], FailedAfter max_retries)"
| "attempt_loop responds max_retries peer_url data (attempt # rest) =
     (if responds attempt then ([Request (peer_url @ ''/replicate'') data], Replicated)
      else
        (let backoff = (if int attempt < int max_retries - 1 then [Sleep (2 ^ attempt)] else []);
             (acts, result) = attempt_loop responds max_retries peer_url data rest
         in (Request (peer_url @ ''/replicate'') data # backoff @ acts, result)))"

definition replicate_to_peer ::
  "('k, 'v, 'n) node \<Rightarrow> (nat \<Rightarrow> bool) \<Rightarrow> string \<Rightarrow> 'k \<Rightarrow> 'v \<Rightarrow> int \<Rightarrow> int \<Rightarrow>
     ('k, 'v, 'n) action list \<times> delivery" where
  "replicate_to_peer n responds peer_url key value timestamp delay =
     (let pre = (if delay > 0 then [Sleep delay] else []);
          data = \<lparr>payload_key = key, payload_value = value, payload_timestamp = timestamp,
                  payload_source_node = node_id n\<rparr>;
          max_retries = 3;
          (acts, result) = attempt_loop responds max_retries peer_url data [0..<max_retries]
      in (pre @ acts, result))"

text \<open>A peer that answers no attempt.\<close>

definition unreachable_peer :: "nat \<Rightarrow> bool" where
  "unreachable_peer attempt = False"

text \<open>The requests of a trace, and the sleeps that follow its first request.\<close>

fun is_request :: "('k, 'v, 'n) action \<Rightarrow> bool" where
  "is_request (Request url data) = True"
| "is_request (Sleep d) = False"

fun sleeps :: "('k, 'v, 'n) action list \<Rightarrow> int list" where
  "sleeps [] = []"
| "sleeps (Sleep d # acts) = d # sleeps acts"
| "sleeps (Request url data # acts) = sleeps acts"

definition backoff_delays :: "('k, 'v, 'n) action list \<Rightarrow> int list" where
  "backoff_delays acts = sleeps (dropWhile (\<lambda>a. \<not> is_request a) acts)"

section \<open>RequestHandler.do_POST\<close>

text \<open>
  The body of a POST request is decoded by \<open>json.loads\<close>. A decoded value is \<open>None\<close>,
  a boolean, an integer, a string, a list or a dictionary with string keys; in a
  dictionary a repeated key keeps its last value. JSON numbers with a fraction or an
  exponent decode to floating point numbers, which are outside this model.
\<close>

datatype json =
    JNull
  | JBool bool
  | JInt int
  | JStr string
  | JList "json list"
  | JObj "(string \<times> json) list"

text \<open>Python's truth value of a decoded value, as \<open>not\<close> and \<open>all\<close> test it.\<close>

fun truthy :: "json \<Rightarrow> bool" where
  "truthy JNull = False"
| "truthy (JBool b) = b"
| "truthy (JInt i) = (i \<noteq> 0)"
| "truthy (JStr s) = (s \<noteq> [])"
| "truthy (JList xs) = (xs \<noteq> [])"
| "truthy (JObj kvs) = (kvs \<noteq> [])"

text \<open>\<open>data.get(name)\<close> on a dictionary: \<open>None\<close> when the key is not there.\<close>

definition dict_get :: "(string \<times> json) list \<Rightarrow> string \<Rightarrow> json" where
  "dict_get kvs name = (case map_of (rev kvs) name of None \<Rightarrow> JNull | Some v \<Rightarrow> v)"

text \<open>
  A key of the store's dictionary must be hashable: lists and dictionaries raise
  \<open>TypeError\<close>. Python's \<open>True\<close> and \<open>False\<close> are the same dictionary keys as 1 and 0,
  so a boolean key is looked up as that integer.
\<close>

fun dict_key :: "json \<Rightarrow> json option" where
  "dict_key (JList xs) = None"
| "dict_key (JObj kvs) = None"
| "dict_key (JBool b) = Some (JInt (if b then 1 else 0))"
| "dict_key k = Some k"

text \<open>
  A timestamp is compared with the clock's integer by \<open>max\<close>: an integer is itself, a
  boolean counts as 1 or 0, and any other value raises \<open>TypeError\<close>.
\<close>

fun as_number :: "json \<Rightarrow> int option" where
  "as_number (JInt i) = Some i"
| "as_number (JBool b) = Some (if b then 1 else 0)"
| "as_number j = None"

datatype py_exception = AttributeError | TypeError

datatype outcome = Response nat json | Raised py_exception

type_synonym http_node = "(json, json, json) node"

definition put_response_json :: "json put_response \<Rightarrow> json" where
  "put_response_json r =
     JObj [(''status'', JStr (put_status r)), (''timestamp'', JInt (put_timestamp r)),
           (''node'', put_node r)]"

definition replicate_response_json :: "replicate_response \<Rightarrow> json" where
  "replicate_response_json r =
     JObj [(''status'', JStr (rep_status r)), (''applied'', JBool (rep_applied r))]"

text \<open>
  \<open>do_POST\<close> takes the path of the request and the decoded body: \<open>None\<close> when
  \<open>json.loads\<close> raised \<open>JSONDecodeError\<close>, the empty dictionary for an empty body. It
  returns the response sent (or the exception that leaves the handler), the threads
  started and the node afterwards. When \<open>handle_put\<close> or \<open>handle_replicate\<close> raises
  inside \<open>store.put\<close>, the clock has already moved.
\<close>

definition do_POST ::
  "http_node \<Rightarrow> string \<Rightarrow> json option \<Rightarrow> outcome \<times> (json, json) thread_args list \<times> http_node" where
  "do_POST n path parsed =
     (case parsed of
        None \<Rightarrow> (Response 400 (JObj [(''error'', JStr ''Invalid JSON'')]), [], n)
      | Some data \<Rightarrow>
          if path = ''/put'' then
            (case data of
               JObj kvs \<Rightarrow>
                 (let key = dict_get kvs ''key'';
                      value = dict_get kvs ''value''
                  in if \<not> truthy key \<or> value = JNull then
                       (Response 400 (JObj [(''error'', JStr ''Missing key or value'')]), [], n)
                     else
                       (case dict_key key of
                          None \<Rightarrow> (Raised TypeError, [], n\<lparr>clock := snd (increment (clock n))\<rparr>)
                        | Some k \<Rightarrow>
                            (let (result, threads, n') = handle_put n k value
                             in (Response 200 (put_response_json result), threads, n'))))
             | _ \<Rightarrow> (Raised AttributeError, [], n))
          else if path = ''/replicate'' then
            (case data of
               JObj kvs \<Rightarrow>
                 (let key = dict_get kvs ''key'';
                      value = dict_get kvs ''value'';
                      timestamp = dict_get kvs ''timestamp'';
                      source_node = dict_get kvs ''source_node''
                  in if \<not> (truthy key \<and> value \<noteq> JNull \<and> truthy timestamp \<and> truthy source_node) then
                       (Response 400 (JObj [(''error'', JStr ''Missing required fields'')]), [], n)
                     else
                       (case as_number timestamp of
                          None \<Rightarrow> (Raised TypeError, [], n)
                        | Some ts \<Rightarrow>
                            (case dict_key key of
                               None \<Rightarrow> (Raised TypeError, [], n\<lparr>clock := snd (update (clock n) ts)\<rparr>)
                             | Some k \<Rightarrow>
                                 (let (result, n') = handle_replicate n k value ts source_node
                                  in (Response 200 (replicate_response_json result), [], n')))))
             | _ \<Rightarrow> (Raised AttributeError, [], n))
          else (Response 404 (JObj [(''error'', JStr ''Not found'')]), [], n))"

text \<open>The status code of a response, if one was sent.\<close>

fun status_code :: "outcome \<Rightarrow> nat option" where
  "status_code (Response code body) = Some code"
| "status_code (Raised e) = None"

text \<open>A field is present in the body when the dictionary has it as a key.\<close>

definition has_field :: "(string \<times> json) list \<Rightarrow> string \<Rightarrow> bool" where
  "has_field kvs name \<longleftrightarrow> name \<in> fst ` set kvs"

section \<open>Properties of KeyValueStore.put\<close>

lemma put_absent:
  "kv key = None \<Longrightarrow>
   put kv key value timestamp origin =
     (True, kv(key \<mapsto> \<lparr>entry_value = value, entry_timestamp = timestamp, entry_node = origin\<rparr>))"
  by (simp add: put_def)

lemma put_newer:
  "kv key = Some existing \<Longrightarrow> entry_timestamp existing < timestamp \<Longrightarrow>
   put kv key value timestamp origin =
     (True, kv(key \<mapsto> \<lparr>entry_value = value, entry_timestamp = timestamp, entry_node = origin\<rparr>))"
  by (simp add: put_def)

lemma put_stale:
  "kv key = Some existing \<Longrightarrow> timestamp \<le> entry_timestamp existing \<Longrightarrow>
   put kv key value timestamp origin = (False, kv)"
  by (simp add: put_def)

text \<open>
  Claim C2. \<open>put\<close> returns true exactly when the key is absent or the timestamp is
  strictly greater than the stored one; then the store holds the entry built from the
  arguments under the key and is otherwise as before. In every other case, a timestamp
  equal to the stored one included, it returns false and the store is unchanged, so the
  existing entry stays.
\<close>

theorem put_lww:
  "(fst (put kv key value timestamp origin) \<longleftrightarrow>
      (kv key = None \<or> (\<exists>existing. kv key = Some existing \<and> entry_timestamp existing < timestamp)))
   \<and> (fst (put kv key value timestamp origin) \<longrightarrow>
        snd (put kv key value timestamp origin) =
          kv(key \<mapsto> \<lparr>entry_value = value, entry_timestamp = timestamp, entry_node = origin\<rparr>))
   \<and> (\<not> fst (put kv key value timestamp origin) \<longrightarrow>
        snd (put kv key value timestamp origin) = kv)
   \<and> (\<forall>existing. kv key = Some existing \<and> entry_timestamp existing = timestamp \<longrightarrow>
        put kv key value timestamp origin = (False, kv)
        \<and> snd (put kv key value timestamp origin) key = Some existing)"
proof (cases "kv key")
  case None
  then show ?thesis by (simp add: put_absent)
next
  case (Some existing)
  show ?thesis
  proof (cases "entry_timestamp existing < timestamp")
    case True
    with Some show ?thesis by (simp add: put_newer)
  next
    case False
    with Some show ?thesis by (simp add: put_stale)
  qed
qed

theorem put_lww_witness:
  "fst (put [''x'' \<mapsto> \<lparr>entry_value = (1::nat), entry_timestamp = 5, entry_node = ''A''\<rparr>]
          ''x'' 2 6 ''B'')
   \<and> snd (put [''x'' \<mapsto> \<lparr>entry_value = (1::nat), entry_timestamp = 5, entry_node = ''A''\<rparr>]
          ''x'' 2 6 ''B'')
       = [''x'' \<mapsto> \<lparr>entry_value = 2, entry_timestamp = 6, entry_node = ''B''\<rparr>]
   \<and> put [''x'' \<mapsto> \<lparr>entry_value = (1::nat), entry_timestamp = 5, entry_node = ''A''\<rparr>]
          ''x'' 2 5 ''B''
       = (False, [''x'' \<mapsto> \<lparr>entry_value = 1, entry_timestamp = 5, entry_node = ''A''\<rparr>])"
proof -
  let ?e = "\<lparr>entry_value = (1::nat), entry_timestamp = 5, entry_node = ''A''\<rparr>"
  let ?kv = "[''x'' \<mapsto> ?e]"
  have newer: "?kv ''x'' = None \<or> (\<exists>existing. ?kv ''x'' = Some existing \<and> entry_timestamp existing < 6)"
    by simp
  have tie: "?kv ''x'' = Some ?e \<and> entry_timestamp ?e = 5"
    by simp
  note a = put_lww [of ?kv "''x''" 2 6 "''B''"]
  note b = put_lww [of ?kv "''x''" 2 5 "''B''"]
  from a newer have a1: "fst (put ?kv ''x'' 2 6 ''B'')" by blast
  with a have a2: "snd (put ?kv ''x'' 2 6 ''B'') =
      ?kv(''x'' \<mapsto> \<lparr>entry_value = 2, entry_timestamp = 6, entry_node = ''B''\<rparr>)" by blast
  from b tie have b1: "put ?kv ''x'' 2 5 ''B'' = (False, ?kv)" by blast
  from a1 a2 b1 show ?thesis by simp
qed

text \<open>
  Claim C4. Calling \<open>put\<close> twice in a row with the same key, value, timestamp and node:
  the first call returns true when the key was absent, the second call returns false and
  leaves the store as the first call left it.
\<close>
theorem put_idempotent:
  "(kv key = None \<longrightarrow> fst (put kv key value timestamp origin))
   \<and> put (snd (put kv key value timestamp origin)) key value timestamp origin
       = (False, snd (put kv key value timestamp origin))"
proof (cases "kv key")
  case None
  then show ?thesis by (simp add: put_absent put_stale)
next
  case (Some existing)
  then show ?thesis
    by (cases "entry_timestamp existing < timestamp") (simp_all add: put_newer put_stale)
qed

theorem put_idempotent_witness:
  "fst (put (init_store :: (string, nat, string) kv_store) ''x'' 1 1 ''A'')
   \<and> put (snd (put (init_store :: (string, nat, string) kv_store) ''x'' 1 1 ''A'')) ''x'' 1 1 ''A''
       = (False, snd (put init_store ''x'' 1 1 ''A''))"
proof -
  have h: "(init_store :: (string, nat, string) kv_store) ''x'' = None"
    by (simp add: init_store_def)
  from put_idempotent [of "init_store :: (string, nat, string) kv_store" "''x''" 1 1 "''A''"] h
  show ?thesis by blast
qed

text \<open>
  Claim C9. Right after a \<open>put\<close> that returns true, \<open>get\<close> of the same key returns the
  entry whose value, timestamp and node are the arguments of that \<open>put\<close>, unchanged, and
  \<open>get\<close> returns the store as it was.
\<close>
theorem get_after_put:
  "fst (put kv key value timestamp origin) \<Longrightarrow>
   fst (get (snd (put kv key value timestamp origin)) key)
     = Some \<lparr>entry_value = value, entry_timestamp = timestamp, entry_node = origin\<rparr>
   \<and> snd (get (snd (put kv key value timestamp origin)) key) = snd (put kv key value timestamp origin)"
  by (cases "kv key") (auto simp: put_def get_def split: if_splits)

theorem get_after_put_witness:
  "fst (get (snd (put (init_store :: (string, nat, string) kv_store) ''x'' 1 1 ''A'')) ''x'')
     = Some \<lparr>entry_value = 1, entry_timestamp = 1, entry_node = ''A''\<rparr>
   \<and> snd (get (snd (put (init_store :: (string, nat, string) kv_store) ''x'' 1 1 ''A'')) ''x'')
       = snd (put init_store ''x'' 1 1 ''A'')"
proof -
  have h: "fst (put (init_store :: (string, nat, string) kv_store) ''x'' 1 1 ''A'')"
    by (simp add: init_store_def put_def)
  show ?thesis by (rule get_after_put [of "init_store :: (string, nat, string) kv_store" "''x''" 1 1 "''A''", OF h])
qed

section \<open>Properties of LamportClock\<close>

lemma clock_step_result:
  "time c < fst (clock_step c call) \<and> time (snd (clock_step c call)) = fst (clock_step c call)"
  by (cases call) (simp_all add: increment_def update_def)

lemma clock_step_received:
  "received < fst (clock_step c (Update received))"
  by (simp add: update_def)

lemma run_clock_Cons:
  "fst (run_clock c (call # calls)) =
     fst (clock_step c call) # fst (run_clock (snd (clock_step c call)) calls)"
  by (simp add: split_beta)

lemma run_clock_length: "length (fst (run_clock c calls)) = length calls"
  by (induction calls arbitrary: c) (simp_all add: run_clock_Cons del: run_clock.simps(2))

lemma run_clock_above: "r \<in> set (fst (run_clock c calls)) \<Longrightarrow> time c < r"
proof (induction calls arbitrary: c)
  case Nil
  then show ?case by simp
next
  case (Cons call calls)
  from Cons.prems have "r = fst (clock_step c call)
      \<or> r \<in> set (fst (run_clock (snd (clock_step c call)) calls))"
    by (simp add: run_clock_Cons del: run_clock.simps(2))
  then show ?case
  proof
    assume "r = fst (clock_step c call)"
    then show ?thesis using clock_step_result [of c call] by simp
  next
    assume "r \<in> set (fst (run_clock (snd (clock_step c call)) calls))"
    from Cons.IH [OF this] show ?thesis using clock_step_result [of c call] by simp
  qed
qed

lemma run_clock_increasing: "sorted_wrt (<) (fst (run_clock c calls))"
proof (induction calls arbitrary: c)
  case Nil
  then show ?case by simp
next
  case (Cons call calls)
  have "\<forall>r \<in> set (fst (run_clock (snd (clock_step c call)) calls)). fst (clock_step c call) < r"
    using run_clock_above [of _ "snd (clock_step c call)" calls] clock_step_result [of c call]
    by auto
  with Cons.IH [of "snd (clock_step c call)"] show ?case
    by (simp add: run_clock_Cons del: run_clock.simps(2))
qed

lemma run_clock_received:
  "i < length calls \<Longrightarrow> calls ! i = Update received \<Longrightarrow> received < fst (run_clock c calls) ! i"
proof (induction calls arbitrary: c i)
  case Nil
  then show ?case by simp
next
  case (Cons call calls)
  show ?case
  proof (cases i)
    case 0
    with Cons.prems show ?thesis
      by (simp add: run_clock_Cons clock_step_received del: run_clock.simps(2) clock_step.simps)
  next
    case (Suc j)
    with Cons.prems Cons.IH [where i = j and c = "snd (clock_step c call)"] show ?thesis
      by (simp add: run_clock_Cons del: run_clock.simps(2))
  qed
qed

text \<open>
  Claim C3. For every sequence of \<open>increment\<close> and \<open>update\<close> calls on one clock, from any
  clock value and with any received arguments, there is one return value for each call,
  each return value is strictly greater than all the return values before it, and the
  return value of an \<open>update\<close> is strictly greater than the argument it received.
\<close>

theorem clock_monotone:
  "length (fst (run_clock c calls)) = length calls
   \<and> sorted_wrt (<) (fst (run_clock c calls))
   \<and> (\<forall>i received. i < length calls \<and> calls ! i = Update received \<longrightarrow>
         received < fst (run_clock c calls) ! i)"
  using run_clock_length run_clock_increasing run_clock_received by blast

theorem clock_monotone_witness:
  "fst (run_clock init_clock [Increment, Update 5, Update 2, Increment]) = [1, 6, 7, 8]
   \<and> (5::int) < fst (run_clock init_clock [Increment, Update 5, Update 2, Increment]) ! 1
   \<and> (2::int) < fst (run_clock init_clock [Increment, Update 5, Update 2, Increment]) ! 2"
proof -
  let ?calls = "[Increment, Update 5, Update 2, Increment]"
  have run: "fst (run_clock init_clock ?calls) = [1, 6, 7, 8]"
    by (simp add: init_clock_def increment_def update_def)
  have h1: "1 < length ?calls \<and> ?calls ! 1 = Update 5" by simp
  have h2: "2 < length ?calls \<and> ?calls ! 2 = Update 2" by simp
  note m = clock_monotone [of init_clock ?calls]
  from m h1 have r1: "5 < fst (run_clock init_clock ?calls) ! 1" by blast
  from m h2 have r2: "2 < fst (run_clock init_clock ?calls) ! 2" by blast
  from run r1 r2 show ?thesis by blast
qed

section \<open>The keys of the store\<close>

lemma put_cases:
  "put kv key value timestamp origin =
     (True, kv(key \<mapsto> \<lparr>entry_value = value, entry_timestamp = timestamp, entry_node = origin\<rparr>))
   \<or> put kv key value timestamp origin = (False, kv)"
  by (simp add: put_def Let_def split: option.splits)

lemma put_dom: "dom kv \<subseteq> dom (snd (put kv key value timestamp origin))"
  using put_cases [of kv key "value" timestamp origin] by auto

lemma kv_step_dom: "dom kv \<subseteq> dom (kv_step kv op)"
  by (cases op) (simp_all add: put_dom get_def get_all_def)

lemma run_ops_dom: "dom kv \<subseteq> dom (run_ops kv ops)"
proof (induction ops arbitrary: kv)
  case Nil
  then show ?case by simp
next
  case (Cons op ops)
  from kv_step_dom [of kv op] Cons.IH [of "kv_step kv op"] show ?case by auto
qed

lemma run_ops_append: "run_ops kv (ops @ later) = run_ops (run_ops kv ops) later"
  by (induction ops arbitrary: kv) simp_all

text \<open>
  Claim C8. Along every sequence of \<open>put\<close>, \<open>get\<close> and \<open>get_all\<close> operations the set of
  keys of the store never shrinks: the keys after a prefix of the sequence are still
  there after the whole sequence. A \<open>put\<close> of an absent key is accepted and adds exactly
  that key; a rejected \<open>put\<close> leaves the keys as they are.
\<close>

theorem keys_never_removed:
  "dom (run_ops kv ops) \<subseteq> dom (run_ops kv (ops @ later))
   \<and> (kv key = None \<longrightarrow>
        fst (put kv key value timestamp origin)
        \<and> dom (snd (put kv key value timestamp origin)) = insert key (dom kv))
   \<and> (\<not> fst (put kv key value timestamp origin) \<longrightarrow>
        dom (snd (put kv key value timestamp origin)) = dom kv)"
proof -
  have "dom (run_ops kv ops) \<subseteq> dom (run_ops kv (ops @ later))"
    by (simp add: run_ops_append run_ops_dom)
  moreover have "kv key = None \<longrightarrow>
        fst (put kv key value timestamp origin)
        \<and> dom (snd (put kv key value timestamp origin)) = insert key (dom kv)"
    by (simp add: put_absent)
  moreover have "\<not> fst (put kv key value timestamp origin) \<longrightarrow>
        dom (snd (put kv key value timestamp origin)) = dom kv"
    using put_cases [of kv key "value" timestamp origin] by auto
  ultimately show ?thesis by blast
qed

theorem keys_never_removed_witness:
  "{''x''} \<subseteq> dom (run_ops (init_store :: (string, nat, string) kv_store)
                     ([Put ''x'' 1 1 ''A''] @ [Get ''x'', Put ''y'' 2 2 ''B'', Put ''x'' 3 1 ''C'', GetAll]))
   \<and> fst (put (init_store :: (string, nat, string) kv_store) ''x'' 1 1 ''A'')
   \<and> dom (snd (put (init_store :: (string, nat, string) kv_store) ''x'' 1 1 ''A'')) = {''x''}"
proof -
  let ?s = "init_store :: (string, nat, string) kv_store"
  have d: "dom (run_ops ?s [Put ''x'' 1 1 ''A'']) = {''x''}"
    by (simp add: init_store_def put_def)
  have h: "?s ''x'' = None" by (simp add: init_store_def)
  have e: "dom ?s = {}" by (simp add: init_store_def)
  note k = keys_never_removed [of ?s "[Put ''x'' 1 1 ''A'']"
      "[Get ''x'', Put ''y'' 2 2 ''B'', Put ''x'' 3 1 ''C'', GetAll]" "''x''" 1 1 "''A''"]
  from k d have a: "{''x''} \<subseteq> dom (run_ops ?s
      ([Put ''x'' 1 1 ''A''] @ [Get ''x'', Put ''y'' 2 2 ''B'', Put ''x'' 3 1 ''C'', GetAll]))"
    by simp
  from k h e have b: "fst (put ?s ''x'' 1 1 ''A'')
      \<and> dom (snd (put ?s ''x'' 1 1 ''A'')) = {''x''}"
    by simp
  from a b show ?thesis by blast
qed

section \<open>Properties of Node\<close>

lemma handle_put_clock:
  "clock (snd (snd (handle_put n key value))) = snd (increment (clock n))"
  by (simp add: handle_put_def split_beta Let_def)

lemma handle_put_store:
  "store (snd (snd (handle_put n key value))) =
     snd (put (store n) key value (fst (increment (clock n))) (node_id n))"
  by (simp add: handle_put_def split_beta Let_def)

lemma handle_put_response:
  "fst (handle_put n key value) =
     \<lparr>put_status = ''ok'', put_timestamp = fst (increment (clock n)), put_node = node_id n\<rparr>"
  by (simp add: handle_put_def split_beta Let_def)

lemma handle_replicate_clock:
  "clock (snd (handle_replicate n key value timestamp source_node)) =
     snd (update (clock n) timestamp)"
  by (simp add: handle_replicate_def split_beta Let_def)

lemma handle_replicate_store:
  "store (snd (handle_replicate n key value timestamp source_node)) =
     snd (put (store n) key value timestamp source_node)"
  by (simp add: handle_replicate_def split_beta Let_def)

lemma handle_replicate_response:
  "fst (handle_replicate n key value timestamp source_node) =
     \<lparr>rep_status = ''ok'',
      rep_applied = fst (put (store n) key value timestamp source_node)\<rparr>"
  by (simp add: handle_replicate_def split_beta Let_def)

lemma put_lookup:
  "snd (put kv key value timestamp origin) k = Some e \<Longrightarrow>
   kv k = Some e \<or> entry_timestamp e = timestamp"
  using put_cases [of kv key "value" timestamp origin] by (auto split: if_splits)

lemma handle_put_dominates:
  assumes "clock_dominates n"
  shows "clock_dominates (snd (snd (handle_put n key value)))"
  unfolding clock_dominates_def
proof (intro allI impI)
  fix k e
  assume "store (snd (snd (handle_put n key value))) k = Some e"
  then have "store n k = Some e \<or> entry_timestamp e = time (clock n) + 1"
    using put_lookup [of "store n" key "value" "fst (increment (clock n))" "node_id n" k e]
    by (simp add: handle_put_store increment_def)
  moreover have "time (clock (snd (snd (handle_put n key value)))) = time (clock n) + 1"
    by (simp add: handle_put_clock increment_def)
  moreover have "store n k = Some e \<Longrightarrow> entry_timestamp e \<le> time (clock n)"
    using assms by (simp add: clock_dominates_def)
  ultimately show "entry_timestamp e \<le> time (clock (snd (snd (handle_put n key value))))"
    by linarith
qed

lemma handle_replicate_dominates:
  assumes "clock_dominates n"
  shows "clock_dominates (snd (handle_replicate n key value timestamp source_node))"
  unfolding clock_dominates_def
proof (intro allI impI)
  fix k e
  let ?n' = "snd (handle_replicate n key value timestamp source_node)"
  assume "store ?n' k = Some e"
  then have "store n k = Some e \<or> entry_timestamp e = timestamp"
    using put_lookup [of "store n" key "value" timestamp source_node k e]
    by (simp add: handle_replicate_store)
  moreover have "time (clock ?n') = max (time (clock n)) timestamp + 1"
    by (simp add: handle_replicate_clock update_def)
  moreover have "store n k = Some e \<Longrightarrow> entry_timestamp e \<le> time (clock n)"
    using assms by (simp add: clock_dominates_def)
  ultimately show "entry_timestamp e \<le> time (clock ?n')"
    by linarith
qed

lemma node_step_dominates: "clock_dominates n \<Longrightarrow> clock_dominates (node_step n ev)"
  by (cases ev) (simp_all add: handle_put_dominates handle_replicate_dominates)

lemma run_events_dominates: "clock_dominates n \<Longrightarrow> clock_dominates (run_events n evs)"
  by (induction evs arbitrary: n) (simp_all add: node_step_dominates)

lemma init_dominates:
  "clock n = init_clock \<Longrightarrow> store n = init_store \<Longrightarrow> clock_dominates n"
  by (simp add: clock_dominates_def init_store_def)

text \<open>
  Claim C10. After every sequence of \<open>handle_put\<close> and \<open>handle_replicate\<close> requests served
  one after the other by a node that starts with clock 0 and an empty store, every entry
  of the store has a timestamp less than or equal to the clock's time.
\<close>

theorem stored_timestamps_le_clock:
  "clock n0 = init_clock \<Longrightarrow> store n0 = init_store \<Longrightarrow>
   store (run_events n0 evs) key = Some existing \<Longrightarrow>
   entry_timestamp existing \<le> time (clock (run_events n0 evs))"
  using run_events_dominates [OF init_dominates, of n0 evs]
  by (simp add: clock_dominates_def)

lemma put_fresh:
  "\<forall>existing. kv key = Some existing \<longrightarrow> entry_timestamp existing < timestamp \<Longrightarrow>
   put kv key value timestamp origin =
     (True, kv(key \<mapsto> \<lparr>entry_value = value, entry_timestamp = timestamp, entry_node = origin\<rparr>))"
  by (cases "kv key") (simp_all add: put_absent put_newer)

lemma dominated_put_applied:
  assumes "clock_dominates n"
  shows "put (store n) key value (fst (increment (clock n))) (node_id n)
           = (True, store (snd (snd (handle_put n key value))))"
proof -
  have "\<forall>existing. store n key = Some existing \<longrightarrow>
          entry_timestamp existing < fst (increment (clock n))"
    using assms by (fastforce simp: clock_dominates_def increment_def)
  then have "put (store n) key value (fst (increment (clock n))) (node_id n) =
      (True, (store n)(key \<mapsto> \<lparr>entry_value = value,
         entry_timestamp = fst (increment (clock n)), entry_node = node_id n\<rparr>))"
    by (rule put_fresh)
  then show ?thesis by (simp add: handle_put_store)
qed

text \<open>
  Claim C5. For every key and value \<open>handle_put\<close> returns the response with status
  \<open>ok\<close>, the timestamp that the clock's \<open>increment\<close> returned for this write and the
  node's own identifier, whatever the state. In every state that a node reaches from
  clock 0 and an empty store by serving requests, the \<open>put\<close> that \<open>handle_put\<close> performs
  (on the node's store, with that timestamp and the node's identifier) returns true, and
  its store is the store of the node afterwards.
\<close>

theorem local_write_accepted:
  "fst (handle_put n key value) =
     \<lparr>put_status = ''ok'', put_timestamp = fst (increment (clock n)), put_node = node_id n\<rparr>
   \<and> (clock n0 = init_clock \<and> store n0 = init_store \<and> n = run_events n0 evs \<longrightarrow>
        put (store n) key value (fst (increment (clock n))) (node_id n)
          = (True, store (snd (snd (handle_put n key value)))))"
  using handle_put_response [of n key "value"] dominated_put_applied [of n key "value"]
    run_events_dominates [OF init_dominates, of n0 evs]
  by blast


theorem stored_timestamps_le_clock_witness:
  "store (run_events (init_node ''A'' 8000 [''http://b''] :: (string, nat, string) node)
            [HandlePut ''x'' 1, HandleReplicate ''y'' 2 7 ''B'']) ''y''
     = Some \<lparr>entry_value = 2, entry_timestamp = 7, entry_node = ''B''\<rparr>
   \<and> entry_timestamp \<lparr>entry_value = 2::nat, entry_timestamp = 7, entry_node = ''B''\<rparr>
       \<le> time (clock (run_events (init_node ''A'' 8000 [''http://b''] :: (string, nat, string) node)
                    [HandlePut ''x'' 1, HandleReplicate ''y'' 2 7 ''B'']))"
proof -
  let ?n0 = "init_node ''A'' 8000 [''http://b''] :: (string, nat, string) node"
  let ?evs = "[HandlePut ''x'' 1, HandleReplicate ''y'' 2 7 ''B'']"
  have c: "clock ?n0 = init_clock" by (simp add: init_node_def)
  have s: "store ?n0 = init_store" by (simp add: init_node_def)
  have e: "store (run_events ?n0 ?evs) ''y''
      = Some \<lparr>entry_value = 2, entry_timestamp = 7, entry_node = ''B''\<rparr>"
    by (simp add: handle_put_store handle_replicate_store put_def init_node_def init_store_def)
  from e stored_timestamps_le_clock [OF c s e] show ?thesis by (rule conjI)
qed

theorem local_write_accepted_witness:
  "put (store (run_events (init_node ''A'' 8000 [''http://b''] :: (string, nat, string) node)
                 [HandleReplicate ''x'' 5 7 ''B'']))
       ''x'' 9
       (fst (increment (clock (run_events (init_node ''A'' 8000 [''http://b''] :: (string, nat, string) node)
                 [HandleReplicate ''x'' 5 7 ''B'']))))
       (node_id (run_events (init_node ''A'' 8000 [''http://b''] :: (string, nat, string) node)
                 [HandleReplicate ''x'' 5 7 ''B'']))
     = (True, store (snd (snd (handle_put
                (run_events (init_node ''A'' 8000 [''http://b''] :: (string, nat, string) node)
                   [HandleReplicate ''x'' 5 7 ''B''])
                ''x'' 9))))
   \<and> fst (increment (clock (run_events (init_node ''A'' 8000 [''http://b''] :: (string, nat, string) node)
                 [HandleReplicate ''x'' 5 7 ''B'']))) = 9"
proof -
  let ?n0 = "init_node ''A'' 8000 [''http://b''] :: (string, nat, string) node"
  let ?evs = "[HandleReplicate ''x'' 5 7 ''B'']"
  have h: "clock ?n0 = init_clock \<and> store ?n0 = init_store
      \<and> run_events ?n0 ?evs = run_events ?n0 ?evs"
    by (simp add: init_node_def)
  have t: "fst (increment (clock (run_events ?n0 ?evs))) = 9"
    by (simp add: handle_replicate_clock update_def increment_def init_node_def init_clock_def)
  from local_write_accepted [of "run_events ?n0 ?evs" "''x''" 9 ?n0 ?evs] h
  have "put (store (run_events ?n0 ?evs)) ''x'' 9
          (fst (increment (clock (run_events ?n0 ?evs)))) (node_id (run_events ?n0 ?evs))
        = (True, store (snd (snd (handle_put (run_events ?n0 ?evs) ''x'' 9))))"
    by blast
  then show ?thesis using t by (rule conjI)
qed

section \<open>Properties of replication to one peer\<close>

lemma upt_3: "[0..<3] = [0, Suc 0, Suc (Suc 0)]"
  by (simp add: upt_rec numeral_3_eq_3)

lemma replicate_to_peer_all_fail:
  assumes "\<forall>attempt < 3. \<not> responds attempt"
  shows "replicate_to_peer n responds peer_url key value timestamp delay =
     ((if delay > 0 then [Sleep delay] else []) @
      [Request (peer_url @ ''/replicate'')
         \<lparr>payload_key = key, payload_value = value, payload_timestamp = timestamp,
          payload_source_node = node_id n\<rparr>,
       Sleep 1,
       Request (peer_url @ ''/replicate'')
         \<lparr>payload_key = key, payload_value = value, payload_timestamp = timestamp,
          payload_source_node = node_id n\<rparr>,
       Sleep 2,
       Request (peer_url @ ''/replicate'')
         \<lparr>payload_key = key, payload_value = value, payload_timestamp = timestamp,
          payload_source_node = node_id n\<rparr>],
      FailedAfter 3)"
proof -
  from assms have "\<not> responds 0" "\<not> responds (Suc 0)" "\<not> responds (Suc (Suc 0))"
    by simp_all
  then show ?thesis
    by (simp add: replicate_to_peer_def upt_3 Let_def)
qed

text \<open>
  Claim C6, as amended. When every delivery attempt to a peer fails,
  \<open>_replicate_to_peer\<close> makes exactly 3 attempts, waits 1 time unit after the first and
  2 time units after the second (\<open>2 ^ attempt\<close>), waits no more after the third, which is
  its last action, and ends reporting failure after 3 attempts.
\<close>

theorem retry_exhaustion:
  assumes "\<forall>attempt < 3. \<not> responds attempt"
  shows "length (filter is_request (fst (replicate_to_peer n responds peer_url key value timestamp delay))) = 3
    \<and> backoff_delays (fst (replicate_to_peer n responds peer_url key value timestamp delay)) = [1, 2]
    \<and> is_request (last (fst (replicate_to_peer n responds peer_url key value timestamp delay)))
    \<and> snd (replicate_to_peer n responds peer_url key value timestamp delay) = FailedAfter 3"
  by (simp add: replicate_to_peer_all_fail [OF assms] backoff_delays_def)

text \<open>
  The claim as stated asks for delays of 1, 2 and 4 time units; with a peer that answers
  no attempt the thread never sleeps 4 time units.
\<close>

theorem retry_exhaustion_counterexample:
  "Sleep 4 \<notin> set (fst (replicate_to_peer (init_node ''A'' 8000 [''http://b''] :: (string, nat, string) node)
      unreachable_peer ''http://b'' ''x'' 1 1 0))
   \<and> backoff_delays (fst (replicate_to_peer (init_node ''A'' 8000 [''http://b''] :: (string, nat, string) node)
      unreachable_peer ''http://b'' ''x'' 1 1 0)) \<noteq> [1, 2, 4]"
  by (simp add: replicate_to_peer_def upt_3 Let_def backoff_delays_def unreachable_peer_def)

theorem retry_exhaustion_witness:
  "length (filter is_request (fst (replicate_to_peer
      (init_node ''A'' 8000 [''http://b''] :: (string, nat, string) node)
      unreachable_peer ''http://b'' ''x'' 1 1 0))) = 3
   \<and> backoff_delays (fst (replicate_to_peer
      (init_node ''A'' 8000 [''http://b''] :: (string, nat, string) node)
      unreachable_peer ''http://b'' ''x'' 1 1 0)) = [1, 2]
   \<and> is_request (last (fst (replicate_to_peer
      (init_node ''A'' 8000 [''http://b''] :: (string, nat, string) node)
      unreachable_peer ''http://b'' ''x'' 1 1 0)))
   \<and> snd (replicate_to_peer
      (init_node ''A'' 8000 [''http://b''] :: (string, nat, string) node)
      unreachable_peer ''http://b'' ''x'' 1 1 0) = FailedAfter 3"
proof -
  have h: "\<forall>attempt < 3. \<not> unreachable_peer attempt" by (simp add: unreachable_peer_def)
  show ?thesis by (rule retry_exhaustion [OF h])
qed

section \<open>Properties of do_POST\<close>

lemma dict_get_missing: "\<not> has_field kvs name \<Longrightarrow> dict_get kvs name = JNull"
proof -
  assume "\<not> has_field kvs name"
  then have "map_of (rev kvs) name = None"
    by (simp add: has_field_def map_of_eq_None_iff)
  then show ?thesis by (simp add: dict_get_def)
qed

lemma do_POST_replicate_400:
  "\<not> (truthy (dict_get kvs ''key'') \<and> dict_get kvs ''value'' \<noteq> JNull
      \<and> truthy (dict_get kvs ''timestamp'') \<and> truthy (dict_get kvs ''source_node'')) \<Longrightarrow>
   do_POST n ''/replicate'' (Some (JObj kvs)) =
     (Response 400 (JObj [(''error'', JStr ''Missing required fields'')]), [], n)"
  by (simp add: do_POST_def Let_def)

lemma do_POST_replicate_pass:
  "truthy (dict_get kvs ''key'') \<Longrightarrow> dict_get kvs ''value'' \<noteq> JNull \<Longrightarrow>
   truthy (dict_get kvs ''timestamp'') \<Longrightarrow> truthy (dict_get kvs ''source_node'') \<Longrightarrow>
   do_POST n ''/replicate'' (Some (JObj kvs)) =
     (case as_number (dict_get kvs ''timestamp'') of
        None \<Rightarrow> (Raised TypeError, [], n)
      | Some ts \<Rightarrow>
          (case dict_key (dict_get kvs ''key'') of
             None \<Rightarrow> (Raised TypeError, [], n\<lparr>clock := snd (update (clock n) ts)\<rparr>)
           | Some k \<Rightarrow>
               (Response 200 (replicate_response_json
                  (fst (handle_replicate n k (dict_get kvs ''value'') ts (dict_get kvs ''source_node'')))),
                [],
                snd (handle_replicate n k (dict_get kvs ''value'') ts (dict_get kvs ''source_node'')))))"
  by (simp add: do_POST_def Let_def split_beta split: option.splits)

lemma do_POST_replicate_pass_status:
  "truthy (dict_get kvs ''key'') \<Longrightarrow> dict_get kvs ''value'' \<noteq> JNull \<Longrightarrow>
   truthy (dict_get kvs ''timestamp'') \<Longrightarrow> truthy (dict_get kvs ''source_node'') \<Longrightarrow>
   status_code (fst (do_POST n ''/replicate'' (Some (JObj kvs)))) \<noteq> Some 400"
  by (simp add: do_POST_replicate_pass split: option.splits)

text \<open>
  Claim C7, as amended. A POST to \<open>/replicate\<close> whose body is a JSON object is answered
  with status 400 exactly when \<open>key\<close>, \<open>timestamp\<close> or \<open>source_node\<close> is missing or false
  in Python (null, false, 0, an empty string, list or object), or \<open>value\<close> is missing or
  null; so it is answered with 400 whenever one of the four fields is missing. When all
  four pass that test, the timestamp is an integer (or a boolean) and the key is
  hashable, the request reaches \<open>handle_replicate\<close> and is answered with status 200 and
  \<open>{status: ok, applied: whether the write was applied}\<close>.
\<close>

theorem replicate_validation:
  "(status_code (fst (do_POST n ''/replicate'' (Some (JObj kvs)))) = Some 400 \<longleftrightarrow>
      (\<not> truthy (dict_get kvs ''key'') \<or> dict_get kvs ''value'' = JNull
       \<or> \<not> truthy (dict_get kvs ''timestamp'') \<or> \<not> truthy (dict_get kvs ''source_node'')))
   \<and> ((\<not> has_field kvs ''key'' \<or> \<not> has_field kvs ''value''
        \<or> \<not> has_field kvs ''timestamp'' \<or> \<not> has_field kvs ''source_node'') \<longrightarrow>
       do_POST n ''/replicate'' (Some (JObj kvs)) =
         (Response 400 (JObj [(''error'', JStr ''Missing required fields'')]), [], n))
   \<and> (truthy (dict_get kvs ''key'') \<and> dict_get kvs ''value'' \<noteq> JNull
        \<and> truthy (dict_get kvs ''timestamp'') \<and> truthy (dict_get kvs ''source_node'')
        \<and> as_number (dict_get kvs ''timestamp'') = Some ts
        \<and> dict_key (dict_get kvs ''key'') = Some k \<longrightarrow>
       do_POST n ''/replicate'' (Some (JObj kvs)) =
         (Response 200
            (JObj [(''status'', JStr ''ok''),
                   (''applied'', JBool (rep_applied (fst (handle_replicate n k
                      (dict_get kvs ''value'') ts (dict_get kvs ''source_node'')))))]),
          [],
          snd (handle_replicate n k (dict_get kvs ''value'') ts (dict_get kvs ''source_node''))))"
proof (intro conjI)
  show "status_code (fst (do_POST n ''/replicate'' (Some (JObj kvs)))) = Some 400 \<longleftrightarrow>
      (\<not> truthy (dict_get kvs ''key'') \<or> dict_get kvs ''value'' = JNull
       \<or> \<not> truthy (dict_get kvs ''timestamp'') \<or> \<not> truthy (dict_get kvs ''source_node''))"
  proof (cases "truthy (dict_get kvs ''key'') \<and> dict_get kvs ''value'' \<noteq> JNull
      \<and> truthy (dict_get kvs ''timestamp'') \<and> truthy (dict_get kvs ''source_node'')")
    case True
    then show ?thesis using do_POST_replicate_pass_status [of kvs n] by blast
  next
    case False
    from do_POST_replicate_400 [OF False, of n] False show ?thesis by auto
  qed
next
  show "(\<not> has_field kvs ''key'' \<or> \<not> has_field kvs ''value''
        \<or> \<not> has_field kvs ''timestamp'' \<or> \<not> has_field kvs ''source_node'') \<longrightarrow>
       do_POST n ''/replicate'' (Some (JObj kvs)) =
         (Response 400 (JObj [(''error'', JStr ''Missing required fields'')]), [], n)"
  proof
    assume "\<not> has_field kvs ''key'' \<or> \<not> has_field kvs ''value''
        \<or> \<not> has_field kvs ''timestamp'' \<or> \<not> has_field kvs ''source_node''"
    then have "dict_get kvs ''key'' = JNull \<or> dict_get kvs ''value'' = JNull
        \<or> dict_get kvs ''timestamp'' = JNull \<or> dict_get kvs ''source_node'' = JNull"
      using dict_get_missing [of kvs] by blast
    then have "\<not> (truthy (dict_get kvs ''key'') \<and> dict_get kvs ''value'' \<noteq> JNull
      \<and> truthy (dict_get kvs ''timestamp'') \<and> truthy (dict_get kvs ''source_node''))"
      by auto
    then show "do_POST n ''/replicate'' (Some (JObj kvs)) =
         (Response 400 (JObj [(''error'', JStr ''Missing required fields'')]), [], n)"
      by (rule do_POST_replicate_400)
  qed
next
  show "truthy (dict_get kvs ''key'') \<and> dict_get kvs ''value'' \<noteq> JNull
        \<and> truthy (dict_get kvs ''timestamp'') \<and> truthy (dict_get kvs ''source_node'')
        \<and> as_number (dict_get kvs ''timestamp'') = Some ts
        \<and> dict_key (dict_get kvs ''key'') = Some k \<longrightarrow>
       do_POST n ''/replicate'' (Some (JObj kvs)) =
         (Response 200
            (JObj [(''status'', JStr ''ok''),
                   (''applied'', JBool (rep_applied (fst (handle_replicate n k
                      (dict_get kvs ''value'') ts (dict_get kvs ''source_node'')))))]),
          [],
          snd (handle_replicate n k (dict_get kvs ''value'') ts (dict_get kvs ''source_node'')))"
    by (simp add: do_POST_replicate_pass replicate_response_json_def handle_replicate_response)
qed

text \<open>
  The claim as stated says a request with all four fields present is never answered with
  400; a body with all four fields and timestamp 0 is.
\<close>

theorem replicate_validation_counterexample:
  "has_field [(''key'', JStr ''x''), (''value'', JInt 1), (''timestamp'', JInt 0),
              (''source_node'', JStr ''B'')] ''key''
   \<and> has_field [(''key'', JStr ''x''), (''value'', JInt 1), (''timestamp'', JInt 0),
              (''source_node'', JStr ''B'')] ''value''
   \<and> has_field [(''key'', JStr ''x''), (''value'', JInt 1), (''timestamp'', JInt 0),
              (''source_node'', JStr ''B'')] ''timestamp''
   \<and> has_field [(''key'', JStr ''x''), (''value'', JInt 1), (''timestamp'', JInt 0),
              (''source_node'', JStr ''B'')] ''source_node''
   \<and> do_POST (init_node (JStr ''A'') 8000 [''http://b'']) ''/replicate''
        (Some (JObj [(''key'', JStr ''x''), (''value'', JInt 1), (''timestamp'', JInt 0),
                     (''source_node'', JStr ''B'')]))
      = (Response 400 (JObj [(''error'', JStr ''Missing required fields'')]), [],
         init_node (JStr ''A'') 8000 [''http://b''])"
  by (simp add: has_field_def do_POST_def dict_get_def Let_def)


theorem replicate_validation_witness:
  "do_POST (init_node (JStr ''A'') 8000 [''http://b'']) ''/replicate''
        (Some (JObj [(''key'', JStr ''x''), (''value'', JInt 1), (''timestamp'', JInt 3),
                     (''source_node'', JStr ''B'')]))
      = (Response 200 (JObj [(''status'', JStr ''ok''), (''applied'', JBool True)]), [],
         snd (handle_replicate (init_node (JStr ''A'') 8000 [''http://b''])
                (JStr ''x'') (JInt 1) 3 (JStr ''B'')))
   \<and> do_POST (init_node (JStr ''A'') 8000 [''http://b'']) ''/replicate''
        (Some (JObj [(''key'', JStr ''x''), (''value'', JInt 1), (''source_node'', JStr ''B'')]))
      = (Response 400 (JObj [(''error'', JStr ''Missing required fields'')]), [],
         init_node (JStr ''A'') 8000 [''http://b''])"
proof -
  let ?n = "init_node (JStr ''A'') 8000 [''http://b''] :: http_node"
  let ?good = "[(''key'', JStr ''x''), (''value'', JInt 1), (''timestamp'', JInt 3),
                (''source_node'', JStr ''B'')]"
  let ?bad = "[(''key'', JStr ''x''), (''value'', JInt 1), (''source_node'', JStr ''B'')]"
  have g: "dict_get ?good ''key'' = JStr ''x''" "dict_get ?good ''value'' = JInt 1"
      "dict_get ?good ''timestamp'' = JInt 3" "dict_get ?good ''source_node'' = JStr ''B''"
    by (simp_all add: dict_get_def)
  have h: "truthy (dict_get ?good ''key'') \<and> dict_get ?good ''value'' \<noteq> JNull
        \<and> truthy (dict_get ?good ''timestamp'') \<and> truthy (dict_get ?good ''source_node'')
        \<and> as_number (dict_get ?good ''timestamp'') = Some 3
        \<and> dict_key (dict_get ?good ''key'') = Some (JStr ''x'')"
    by (simp add: g)
  have m: "\<not> has_field ?bad ''key'' \<or> \<not> has_field ?bad ''value''
        \<or> \<not> has_field ?bad ''timestamp'' \<or> \<not> has_field ?bad ''source_node''"
    by (simp add: has_field_def)
  have a: "rep_applied (fst (handle_replicate ?n (JStr ''x'') (JInt 1) 3 (JStr ''B'')))"
    by (simp add: handle_replicate_response put_def init_node_def init_store_def)
  from replicate_validation [of ?n ?good 3 "JStr ''x''"] h
  have "do_POST ?n ''/replicate'' (Some (JObj ?good)) =
         (Response 200
            (JObj [(''status'', JStr ''ok''),
                   (''applied'', JBool (rep_applied (fst (handle_replicate ?n (JStr ''x'')
                      (dict_get ?good ''value'') 3 (dict_get ?good ''source_node'')))))]),
          [],
          snd (handle_replicate ?n (JStr ''x'') (dict_get ?good ''value'') 3
                 (dict_get ?good ''source_node'')))"
    by blast
  then have ok: "do_POST ?n ''/replicate'' (Some (JObj ?good)) =
         (Response 200 (JObj [(''status'', JStr ''ok''), (''applied'', JBool True)]), [],
          snd (handle_replicate ?n (JStr ''x'') (JInt 1) 3 (JStr ''B'')))"
    using a by (simp only: g simp_thms)
  from replicate_validation [of ?n ?bad] m
  have bad: "do_POST ?n ''/replicate'' (Some (JObj ?bad)) =
         (Response 400 (JObj [(''error'', JStr ''Missing required fields'')]), [], ?n)"
    by blast
  from ok bad show ?thesis by (rule conjI)
qed

section \<open>Order of delivery\<close>

lemma apply_writes_snoc: "apply_writes kv (ws @ [w]) = apply_write (apply_writes kv ws) w"
  by (simp add: apply_writes_def)

text \<open>What the store holds after a list of writes applied to the empty store.\<close>

lemma put_other:
  "k \<noteq> key \<Longrightarrow> snd (put kv key v t origin) k = kv k"
  using put_cases [of kv key v t origin] by auto

lemma put_same:
  "snd (put kv key v t origin) key =
     (case kv key of
        None \<Rightarrow> Some \<lparr>entry_value = v, entry_timestamp = t, entry_node = origin\<rparr>
      | Some existing \<Rightarrow>
          if entry_timestamp existing < t
          then Some \<lparr>entry_value = v, entry_timestamp = t, entry_node = origin\<rparr>
          else Some existing)"
  by (simp add: put_def Let_def split: option.splits)

lemma apply_write_other:
  "k \<noteq> write_key w \<Longrightarrow> apply_write kv w k = kv k"
  by (cases w) (simp add: put_other)

lemma apply_writes_absent:
  "apply_writes init_store ws k = None \<longleftrightarrow> k \<notin> write_key ` set ws"
proof (induction ws rule: rev_induct)
  case Nil
  then show ?case by (simp add: apply_writes_def init_store_def)
next
  case (snoc w ws)
  show ?case
  proof (cases "k = write_key w")
    case True
    obtain key v t origin where w: "w = (key, v, t, origin)" by (cases w) auto
    with True have "apply_writes init_store (ws @ [w]) k \<noteq> None"
      by (simp add: apply_writes_snoc put_same split: option.splits)
    with True show ?thesis by simp
  next
    case False
    with snoc.IH show ?thesis
      by (simp add: apply_writes_snoc apply_write_other)
  qed
qed

lemma apply_writes_present:
  "apply_writes init_store ws k = Some e \<Longrightarrow>
   (k, entry_value e, entry_timestamp e, entry_node e) \<in> set ws
   \<and> (\<forall>w \<in> set ws. write_key w = k \<longrightarrow> write_timestamp w \<le> entry_timestamp e)"
proof (induction ws arbitrary: e rule: rev_induct)
  case Nil
  then show ?case by (simp add: apply_writes_def init_store_def)
next
  case (snoc w ws)
  obtain key v t origin where w: "w = (key, v, t, origin)" by (cases w) auto
  let ?kv = "apply_writes init_store ws"
  show ?case
  proof (cases "k = key")
    case False
    with w snoc.prems have "?kv k = Some e"
      by (simp add: apply_writes_snoc put_other)
    from snoc.IH [OF this] False w show ?thesis by auto
  next
    case True
    show ?thesis
    proof (cases "?kv key")
      case None
      with snoc.prems w True
      have e: "e = \<lparr>entry_value = v, entry_timestamp = t, entry_node = origin\<rparr>"
        by (simp add: apply_writes_snoc put_same)
      from None have "key \<notin> write_key ` set ws" by (simp add: apply_writes_absent)
      with e w True show ?thesis by auto
    next
      case (Some existing)
      note IH = snoc.IH [of existing, unfolded True, OF Some]
      show ?thesis
      proof (cases "entry_timestamp existing < t")
        case newer: True
        with Some snoc.prems w True
        have e: "e = \<lparr>entry_value = v, entry_timestamp = t, entry_node = origin\<rparr>"
          by (simp add: apply_writes_snoc put_same)
        with IH newer w True show ?thesis by fastforce
      next
        case stale: False
        with Some snoc.prems w True have "e = existing"
          by (simp add: apply_writes_snoc put_same)
        with IH stale w True show ?thesis by auto
      qed
    qed
  qed
qed

lemma tie_free_entry:
  assumes "tie_free ws"
    and "(k, entry_value e, entry_timestamp e, entry_node e) \<in> set ws"
    and "(k, entry_value e', entry_timestamp e', entry_node e') \<in> set ws"
    and "entry_timestamp e = entry_timestamp e'"
  shows "e = (e' :: ('v, 'n) entry)"
proof -
  from assms have "(k, entry_value e, entry_timestamp e, entry_node e)
      = (k, entry_value e', entry_timestamp e', entry_node e')"
    unfolding tie_free_def by fastforce
  then show ?thesis by simp
qed

text \<open>
  Claim C1, as amended. For every list of writes in which no two different writes have
  the same key and the same timestamp, applying the writes by \<open>put\<close> to an empty store
  in any permutation yields the same final store.
\<close>

theorem lww_order_independent:
  assumes "mset xs = mset ys" and "tie_free xs"
  shows "apply_writes init_store xs = apply_writes init_store ys"
proof
  fix k
  from assms(1) have sets: "set xs = set ys" by (rule mset_eq_setD)
  show "apply_writes init_store xs k = apply_writes init_store ys k"
  proof (cases "apply_writes init_store xs k")
    case None
    then have "k \<notin> write_key ` set ys" using sets by (simp add: apply_writes_absent)
    then have "apply_writes init_store ys k = None" by (simp add: apply_writes_absent)
    with None show ?thesis by simp
  next
    case (Some e)
    then have "k \<in> write_key ` set ys"
      using apply_writes_absent [of xs k] sets by simp
    then obtain e' where Some': "apply_writes init_store ys k = Some e'"
      using apply_writes_absent [of ys k] by (cases "apply_writes init_store ys k") auto
    note a = apply_writes_present [OF Some]
    note b = apply_writes_present [OF Some']
    from a b sets have "entry_timestamp e' \<le> entry_timestamp e"
      "entry_timestamp e \<le> entry_timestamp e'"
      by fastforce+
    then have "entry_timestamp e = entry_timestamp e'" by simp
    with assms(2) a b sets have "e = e'" by (auto intro: tie_free_entry)
    with Some Some' show ?thesis by simp
  qed
qed

text \<open>
  The claim as stated covers every set of writes. Two writes of the same key with equal
  timestamps and different values end in different stores in their two orders: the one
  applied first stays.
\<close>

theorem lww_order_independent_counterexample:
  "mset [(''x'', 1::nat, 1::int, ''A''), (''x'', 2, 1, ''B'')]
     = mset [(''x'', 2::nat, 1::int, ''B''), (''x'', 1, 1, ''A'')]
   \<and> apply_writes init_store [(''x'', 1::nat, 1::int, ''A''), (''x'', 2, 1, ''B'')]
       \<noteq> apply_writes init_store [(''x'', 2::nat, 1::int, ''B''), (''x'', 1, 1, ''A'')]"
proof
  show "mset [(''x'', 1::nat, 1::int, ''A''), (''x'', 2, 1, ''B'')]
     = mset [(''x'', 2::nat, 1::int, ''B''), (''x'', 1, 1, ''A'')]"
    by simp
next
  have a: "apply_writes init_store [(''x'', 1::nat, 1::int, ''A''), (''x'', 2, 1, ''B'')] ''x''
      = Some \<lparr>entry_value = 1, entry_timestamp = 1, entry_node = ''A''\<rparr>"
    by (simp add: apply_writes_def init_store_def put_def)
  have b: "apply_writes init_store [(''x'', 2::nat, 1::int, ''B''), (''x'', 1, 1, ''A'')] ''x''
      = Some \<lparr>entry_value = 2, entry_timestamp = 1, entry_node = ''B''\<rparr>"
    by (simp add: apply_writes_def init_store_def put_def)
  show "apply_writes init_store [(''x'', 1::nat, 1::int, ''A''), (''x'', 2, 1, ''B'')]
       \<noteq> apply_writes init_store [(''x'', 2::nat, 1::int, ''B''), (''x'', 1, 1, ''A'')]"
  proof
    assume "apply_writes init_store [(''x'', 1::nat, 1::int, ''A''), (''x'', 2, 1, ''B'')]
       = apply_writes init_store [(''x'', 2::nat, 1::int, ''B''), (''x'', 1, 1, ''A'')]"
    then have "apply_writes init_store [(''x'', 1::nat, 1::int, ''A''), (''x'', 2, 1, ''B'')] ''x''
       = apply_writes init_store [(''x'', 2::nat, 1::int, ''B''), (''x'', 1, 1, ''A'')] ''x''"
      by simp
    with a b show False by simp
  qed
qed

theorem lww_order_independent_witness:
  "apply_writes init_store [(''x'', 1::nat, 1::int, ''A''), (''x'', 2, 2, ''B''), (''y'', 3, 1, ''A'')]
     = apply_writes init_store [(''x'', 2::nat, 2::int, ''B''), (''y'', 3, 1, ''A''), (''x'', 1, 1, ''A'')]"
proof -
  have p: "mset [(''x'', 1::nat, 1::int, ''A''), (''x'', 2, 2, ''B''), (''y'', 3, 1, ''A'')]
      = mset [(''x'', 2::nat, 2::int, ''B''), (''y'', 3, 1, ''A''), (''x'', 1, 1, ''A'')]"
    by simp
  have t: "tie_free [(''x'', 1::nat, 1::int, ''A''), (''x'', 2, 2, ''B''), (''y'', 3, 1, ''A'')]"
    by (simp add: tie_free_def)
  from p t show ?thesis by (rule lww_order_independent)
qed

end
